theory Spec2Isabelle
  imports Main "HOL-Library.Word"
begin

section \<open>The logging facility of logging.c\<close>

text \<open>
  The theory embeds \<^verbatim>\<open>src/main/c/logging.c\<close> (with \<^verbatim>\<open>logging.h\<close>) as functions on an
  explicit world: the module's one global (\<^verbatim>\<open>static int level\<close>), the standard error
  stream, the file system, the clock and the heap. Every function of the C file takes
  the world and returns its result together with the new world. The embedding follows
  the default build, in which \<^verbatim>\<open>_LOG_MALLOC_\<close> is not defined and \<^verbatim>\<open>MALLOC\<close>,
  \<^verbatim>\<open>CALLOC\<close> and \<^verbatim>\<open>FREE\<close> are the allocator's own functions. The model is
  sequential: the mutex appears as the calls that take and release it. A C string is
  a \<open>string\<close>. An \<^verbatim>\<open>int\<close> of the C code is an \<open>int\<close> where its arithmetic cannot leave the
  32 bits (the level, a line number, the index of a log file below \<open>10^9\<close>), and a
  32-bit word where it can: the length given to \<open>bits2str\<close>.
\<close>

subsection \<open>Constants of logging.h\<close>

definition LOG_NONE :: int where "LOG_NONE = 0"
definition LOG_ERRORS :: int where "LOG_ERRORS = 1"
definition LOG_WARNINGS :: int where "LOG_WARNINGS = 2"
definition LOG_INFO :: int where "LOG_INFO = 3"
definition LOG_DEBUG :: int where "LOG_DEBUG = 4"
definition LOG_ALL :: int where "LOG_ALL = 5"

subsection \<open>The world\<close>

text \<open>
  Where the standard error stream writes: the descriptor the process started with, or a
  file it was reopened on. A closed stream has no sink.
\<close>

datatype sink = Console | File string

text \<open>The calls into the C library that the module makes, in the order it makes them.\<close>

datatype call =
    Rename string string
  | Write string
  | Flush
  | Reopen string
  | Close
  | Lock
  | Unlock

record world =
  level :: int  \<comment> \<open>\<^verbatim>\<open>static int level\<close>\<close>
  files :: "string \<rightharpoonup> string"  \<comment> \<open>the regular files, by path, with their content\<close>
  console :: string  \<comment> \<open>what reached the original standard error\<close>
  stderr_sink :: "sink option"  \<comment> \<open>\<open>None\<close>: the stream is closed\<close>
  tv_sec :: nat  \<comment> \<open>the reading of \<^verbatim>\<open>gettimeofday\<close>\<close>
  tv_usec :: nat
  heap_free :: nat  \<comment> \<open>bytes the allocator can still hand out\<close>
  openable :: "string \<Rightarrow> bool"  \<comment> \<open>the paths that can be opened for appending\<close>
  refused :: "string \<Rightarrow> string \<Rightarrow> bool"  \<comment> \<open>the renames the file system refuses\<close>
  io_error :: bool  \<comment> \<open>the device under the stream rejects writes\<close>
  trace :: "call list"  \<comment> \<open>the library calls made so far\<close>

text \<open>
  How a call of a function of the module ends: a \<^verbatim>\<open>void\<close> return, an \<^verbatim>\<open>int\<close> return,
  or \<^verbatim>\<open>exit\<close> with a status.
\<close>

datatype outcome = Void | Val int | Exit int

definition called :: "call \<Rightarrow> world \<Rightarrow> world" where
  "called c w = w\<lparr>trace := trace w @ [c]\<rparr>"

text \<open>The calls made between an earlier world and a later one.\<close>

definition new_calls :: "world \<Rightarrow> world \<Rightarrow> call list" where
  "new_calls w w' = drop (length (trace w)) (trace w')"

fun writes_of :: "call list \<Rightarrow> string list" where
  "writes_of [] = []"
| "writes_of (Write s # cs) = s # writes_of cs"
| "writes_of (c # cs) = writes_of cs"


subsection \<open>Text: decimal and hexadecimal digits, C strings\<close>

definition digit :: "nat \<Rightarrow> char" where
  "digit d = ''0123456789abcdef'' ! d"

text \<open>An unsigned number in decimal, as \<^verbatim>\<open>%u\<close> and \<^verbatim>\<open>%PRIu64\<close> print it.\<close>

function dec :: "nat \<Rightarrow> string" where
  "dec n = (if n < 10 then [digit n] else dec (n div 10) @ [digit (n mod 10)])"
  by pat_completeness auto
termination
  by (relation "measure id") auto

declare dec.simps [simp del]

text \<open>A signed number in decimal, as \<^verbatim>\<open>%d\<close> prints it.\<close>

definition fmt_d :: "int \<Rightarrow> string" where
  "fmt_d i = (if i < 0 then CHR ''-'' # dec (nat (- i)) else dec (nat i))"

text \<open>
  \<^verbatim>\<open>strrchr(s, c)\<close>: the offset of the last occurrence of \<open>c\<close> in \<open>s\<close>, \<open>None\<close> for the
  null pointer.
\<close>

fun strrchr :: "string \<Rightarrow> char \<Rightarrow> nat option" where
  "strrchr [] c = None"
| "strrchr (x # xs) c =
     (case strrchr xs c of
        Some k \<Rightarrow> Some (Suc k)
      | None \<Rightarrow> if x = c then Some 0 else None)"

subsection \<open>The clock, the stream and the heap\<close>

text \<open>
  \<^verbatim>\<open>static inline uint64_t current_time_ms() {
    struct timeval te;
    gettimeofday(&te, NULL);
    return te.tv_sec*1000ll + te.tv_usec/1000;
  }\<close>
\<close>

definition current_time_ms :: "world \<Rightarrow> nat" where
  "current_time_ms w = (tv_sec w * 1000 + tv_usec w div 1000) mod 2 ^ 64"

definition content :: "world \<Rightarrow> string \<Rightarrow> string" where
  "content w p = (case files w p of Some c \<Rightarrow> c | None \<Rightarrow> [])"

text \<open>
  \<^verbatim>\<open>fprintf(stderr, ...)\<close> with the text that the format and its arguments expand to.
  The text reaches the sink of the stream; a closed stream and a failing device take
  nothing. (ISO C leaves the use of a closed stream undefined; the model has the call
  fail, as the C libraries in use do.) The callers ignore the result.
\<close>

definition fprintf :: "string \<Rightarrow> world \<Rightarrow> world" where
  "fprintf s w =
     (let w1 = called (Write s) w in
      if io_error w then w1
      else (case stderr_sink w of
              None \<Rightarrow> w1
            | Some Console \<Rightarrow> w1\<lparr>console := console w @ s\<rparr>
            | Some (File p) \<Rightarrow> w1\<lparr>files := (files w)(p \<mapsto> content w p @ s)\<rparr>))"

definition fflush :: "world \<Rightarrow> world" where
  "fflush w = called Flush w"

definition pthread_mutex_lock :: "world \<Rightarrow> world" where
  "pthread_mutex_lock w = called Lock w"

definition pthread_mutex_unlock :: "world \<Rightarrow> world" where
  "pthread_mutex_unlock w = called Unlock w"

text \<open>
  \<^verbatim>\<open>fclose(stderr)\<close>: the stream is closed whatever the result; the result is \<open>EOF\<close> when
  the stream was closed already or the device fails.
\<close>

definition EOF :: int where "EOF = - 1"

definition fclose :: "world \<Rightarrow> int \<times> world" where
  "fclose w =
     (if stderr_sink w = None \<or> io_error w then EOF else 0,
      (called Close w)\<lparr>stderr_sink := None\<rparr>)"

text \<open>
  \<^verbatim>\<open>freopen(path, "a", stderr)\<close>. ISO C 7.21.5.4: the function first attempts to close
  any file that is associated with the stream, then opens the file named by \<open>path\<close> and
  associates the stream with it; POSIX adds that the original stream is closed whether
  or not the open succeeds. Mode \<^verbatim>\<open>"a"\<close> creates a missing file and keeps the content of an
  existing one. The result is \<open>False\<close> for the null pointer.
\<close>

definition freopen :: "string \<Rightarrow> world \<Rightarrow> bool \<times> world" where
  "freopen path w =
     (let w1 = (called (Reopen path) w)\<lparr>stderr_sink := None\<rparr> in
      if openable w path
      then (True, w1\<lparr>stderr_sink := Some (File path),
                      files := (files w)(path \<mapsto> content w path)\<rparr>)
      else (False, w1))"

text \<open>
  \<^verbatim>\<open>malloc\<close> and \<^verbatim>\<open>calloc\<close>: a request succeeds when it fits the free bytes; \<open>None\<close> is
  the null pointer.
\<close>

definition malloc :: "nat \<Rightarrow> world \<Rightarrow> world option" where
  "malloc n w = (if n \<le> heap_free w then Some (w\<lparr>heap_free := heap_free w - n\<rparr>) else None)"

definition free :: "nat \<Rightarrow> world \<Rightarrow> world" where
  "free n w = w\<lparr>heap_free := heap_free w + n\<rparr>"

text \<open>
  The world at the start of the process: \<^verbatim>\<open>static int level = LOG_INFO\<close>, the standard
  error stream on the console.
\<close>

definition boot :: world where
  "boot = \<lparr>level = LOG_INFO, files = Map.empty, console = [], stderr_sink = Some Console,
           tv_sec = 1700000000, tv_usec = 123456, heap_free = 65536,
           openable = (\<lambda>p. True), refused = (\<lambda>old new. False), io_error = False,
           trace = []\<rparr>"

subsection \<open>The emitters\<close>

text \<open>
  The five emitters share one body, which differs in the tag only:
  \<^verbatim>\<open>const char* smodule = strrchr(module, '/') ? strrchr(module, '/') + 1 : module;
  va_list args;
  va_start(args, format);
  pthread_mutex_lock(&mutex);
  fprintf(stderr, "%" PRIu64 "|ERROR|%s:%d|", current_time_ms(), smodule, line);
  vfprintf(stderr, format, args);
  fprintf(stderr, "\n");
  fflush(stderr);
  pthread_mutex_unlock(&mutex);
  va_end(args);\<close>
  The argument \<open>msg\<close> is the text that \<^verbatim>\<open>format\<close> and its arguments expand to.
\<close>

definition smodule_of :: "string \<Rightarrow> string" where
  "smodule_of module =
     (case strrchr module CHR ''/'' of Some k \<Rightarrow> drop (Suc k) module | None \<Rightarrow> module)"

definition header :: "string \<Rightarrow> string \<Rightarrow> int \<Rightarrow> world \<Rightarrow> string" where
  "header tag module line w =
     dec (current_time_ms w) @ ''|'' @ tag @ ''|'' @ smodule_of module @ '':'' @ fmt_d line @ ''|''"

definition emit :: "string \<Rightarrow> string \<Rightarrow> int \<Rightarrow> string \<Rightarrow> world \<Rightarrow> world" where
  "emit tag module line msg w =
     pthread_mutex_unlock
       (fflush
          (fprintf [CHR 0x0A]
             (fprintf msg
                (fprintf (header tag module line w)
                   (pthread_mutex_lock w)))))"

text \<open>
  \<^verbatim>\<open>void log_die(const char* module, int line, const char *format, ...) {
    if (level > LOG_NONE) { ... "|ABORT|" ... }
    exit(1);
  }\<close>
\<close>

definition log_die :: "string \<Rightarrow> int \<Rightarrow> string \<Rightarrow> world \<Rightarrow> outcome \<times> world" where
  "log_die module line msg w =
     (let w' = (if level w > LOG_NONE then emit ''ABORT'' module line msg w else w)
      in (Exit 1, w'))"

text \<open>
  \<^verbatim>\<open>int log_error(const char* module, int line, const char *format, ...) {
    if (level >= LOG_ERRORS) { ... "|ERROR|" ... }
    return -1;
  }\<close>
\<close>

definition log_error :: "string \<Rightarrow> int \<Rightarrow> string \<Rightarrow> world \<Rightarrow> outcome \<times> world" where
  "log_error module line msg w =
     (let w' = (if level w \<ge> LOG_ERRORS then emit ''ERROR'' module line msg w else w)
      in (Val (- 1), w'))"

text \<open>
  \<^verbatim>\<open>int log_warning(const char* module, int line, const char *format, ...) {
    if (level >= LOG_WARNINGS) { ... "|WARNING|" ... }
    return -1;
  }\<close>
\<close>

definition log_warning :: "string \<Rightarrow> int \<Rightarrow> string \<Rightarrow> world \<Rightarrow> outcome \<times> world" where
  "log_warning module line msg w =
     (let w' = (if level w \<ge> LOG_WARNINGS then emit ''WARNING'' module line msg w else w)
      in (Val (- 1), w'))"

text \<open>
  \<^verbatim>\<open>void log_info(const char* module, int line, const char *format, ...) {
    if (level >= LOG_INFO) { ... "|INFO|" ... }
  }\<close>
\<close>

definition log_info :: "string \<Rightarrow> int \<Rightarrow> string \<Rightarrow> world \<Rightarrow> outcome \<times> world" where
  "log_info module line msg w =
     (let w' = (if level w \<ge> LOG_INFO then emit ''INFO'' module line msg w else w)
      in (Void, w'))"

text \<open>
  \<^verbatim>\<open>void log_debug(const char* module, int line, const char *format, ...) {
    if (level >= LOG_DEBUG) { ... "|DEBUG|" ... }
  }\<close>
\<close>

definition log_debug :: "string \<Rightarrow> int \<Rightarrow> string \<Rightarrow> world \<Rightarrow> outcome \<times> world" where
  "log_debug module line msg w =
     (let w' = (if level w \<ge> LOG_DEBUG then emit ''DEBUG'' module line msg w else w)
      in (Void, w'))"

text \<open>The text one call of an emitter sends to the stream, and what the sink holds.\<close>

definition line_of :: "string \<Rightarrow> string \<Rightarrow> int \<Rightarrow> string \<Rightarrow> world \<Rightarrow> string" where
  "line_of tag module line msg w = header tag module line w @ msg @ [CHR 0x0A]"

definition sink_text :: "world \<Rightarrow> string" where
  "sink_text w =
     (case stderr_sink w of
        None \<Rightarrow> []
      | Some Console \<Rightarrow> console w
      | Some (File p) \<Rightarrow> content w p)"

subsection \<open>Formatting a file name\<close>

text \<open>
  \<^verbatim>\<open>sprintf(buf, pattern, i)\<close> with one \<^verbatim>\<open>int\<close> argument. The model covers ordinary
  characters, \<^verbatim>\<open>%%\<close> and \<^verbatim>\<open>%d\<close>. The second argument is the \<^verbatim>\<open>int\<close> that is still to
  be consumed. \<open>None\<close> is a format outside this fragment or with undefined behaviour: a
  \<^verbatim>\<open>%\<close> that ends the format, another conversion, a second \<^verbatim>\<open>%d\<close>.
\<close>

fun vsprintf :: "string \<Rightarrow> int option \<Rightarrow> string option" where
  "vsprintf [] a = Some []"
| "vsprintf (c # cs) a =
     (if c \<noteq> CHR ''%'' then map_option ((#) c) (vsprintf cs a)
      else (case cs of
              [] \<Rightarrow> None
            | d # ds \<Rightarrow>
                if d = CHR ''%'' then map_option ((#) CHR ''%'') (vsprintf ds a)
                else if d = CHR ''d'' then
                  (case a of
                     Some i \<Rightarrow> map_option ((@) (fmt_d i)) (vsprintf ds None)
                   | None \<Rightarrow> None)
                else None))"

definition sprintf :: "string \<Rightarrow> int \<Rightarrow> string option" where
  "sprintf pattern i = vsprintf pattern (Some i)"

subsection \<open>Rotation\<close>

text \<open>
  \<^verbatim>\<open>rename(old, new)\<close> on regular files. It fails, changing nothing, when \<open>old\<close> does not
  exist and when the file system refuses the rename with \<open>old\<close> present (the directory
  of \<open>new\<close> is missing, a permission is); it does nothing when both names are the same
  file; otherwise \<open>new\<close> takes the content of \<open>old\<close>, replacing what it had, and \<open>old\<close> is
  gone. \<open>mv\<close> is the effect on the files, for the renames \<open>deny\<close> that are refused.
\<close>

definition mv ::
  "(string \<Rightarrow> string \<Rightarrow> bool) \<Rightarrow> string \<Rightarrow> string \<Rightarrow> (string \<rightharpoonup> string) \<Rightarrow>
     (string \<rightharpoonup> string)" where
  "mv deny old new fs =
     (case fs old of
        None \<Rightarrow> fs
      | Some c \<Rightarrow>
          if deny old new then fs
          else if old = new then fs
          else fs(old := None, new \<mapsto> c))"

definition rename :: "string \<Rightarrow> string \<Rightarrow> world \<Rightarrow> int \<times> world" where
  "rename old new w =
     (if files w old = None \<or> refused w old new then - 1 else 0,
      (called (Rename old new) w)\<lparr>files := mv (refused w) old new (files w)\<rparr>)"

text \<open>
  \<^verbatim>\<open>static int rotate_logs(const char* pattern, int maxfiles) {
    int maxlen = strlen(pattern)+8;
    char* buf = MALLOC(2*maxlen);
    if (buf == NULL) return -1;
    char* filename1 = buf;
    char* filename2 = buf + maxlen;
    for (int i = maxfiles-1; i >= 0; i--) {
      sprintf(filename1, pattern, i);
      sprintf(filename2, pattern, i+1);
      rename(filename1, filename2);
    }
    FREE(buf);
    return 0;
  }\<close>
  The loop, from \<open>i\<close> downwards; the result of \<^verbatim>\<open>rename\<close> is not looked at. Each name, with its terminator, has to fit the
  \<open>maxlen\<close> bytes of its half of the buffer. The second name is never shorter than the
  first, and when it does not fit, \<^verbatim>\<open>sprintf\<close> writes past the end of the allocation:
  the result is \<open>None\<close>, as for a format that \<open>sprintf\<close> gives no meaning to.
\<close>

function rotate_loop :: "string \<Rightarrow> nat \<Rightarrow> int \<Rightarrow> world \<Rightarrow> world option" where
  "rotate_loop pattern maxlen i w =
     (if i \<ge> 0 then
        (case sprintf pattern i of
           None \<Rightarrow> None
         | Some filename1 \<Rightarrow>
             (case sprintf pattern (i + 1) of
                None \<Rightarrow> None
              | Some filename2 \<Rightarrow>
                  if length filename1 < maxlen \<and> length filename2 < maxlen
                  then rotate_loop pattern maxlen (i - 1) (snd (rename filename1 filename2 w))
                  else None))
      else Some w)"
  by pat_completeness auto
termination
  by (relation "measure (\<lambda>(pattern, maxlen, i, w). nat (i + 1))") auto

declare rotate_loop.simps [simp del]

definition rotate_logs :: "string \<Rightarrow> int \<Rightarrow> world \<Rightarrow> (outcome \<times> world) option" where
  "rotate_logs pattern maxfiles w =
     (let maxlen = length pattern + 8 in
      case malloc (2 * maxlen) w of
        None \<Rightarrow> Some (Val (- 1), w)
      | Some w1 \<Rightarrow>
          (case rotate_loop pattern maxlen (maxfiles - 1) w1 of
             None \<Rightarrow> None
           | Some w2 \<Rightarrow> Some (Val 0, free (2 * maxlen) w2)))"

text \<open>
  The file name a pattern gives for an index, and the effect on the files of renaming
  index \<open>j\<close> to index \<open>j + 1\<close> for each \<open>j\<close> of a list in turn, where the renames \<open>deny\<close>
  are refused.
\<close>

definition name_at :: "string \<Rightarrow> int \<Rightarrow> string" where
  "name_at pattern i = (case sprintf pattern i of Some f \<Rightarrow> f | None \<Rightarrow> [])"

definition shifted ::
  "(string \<Rightarrow> string \<Rightarrow> bool) \<Rightarrow> string \<Rightarrow> int list \<Rightarrow> (string \<rightharpoonup> string) \<Rightarrow>
     (string \<rightharpoonup> string)" where
  "shifted deny pattern js fs =
     foldl (\<lambda>fs j. mv deny (name_at pattern j) (name_at pattern (j + 1)) fs) fs js"


definition one_log :: world where
  "one_log = boot\<lparr>files := [''log-0.txt'' \<mapsto> ''A'']\<rparr>"

definition four_logs :: world where
  "four_logs = boot\<lparr>files := [''log-0.txt'' \<mapsto> ''A'', ''log-1.txt'' \<mapsto> ''B'',
     ''log-2.txt'' \<mapsto> ''C'', ''log-3.txt'' \<mapsto> ''D'']\<rparr>"

definition rotate_again ::
  "string \<Rightarrow> int \<Rightarrow> (outcome \<times> world) option \<Rightarrow> (outcome \<times> world) option" where
  "rotate_again pattern maxfiles x =
     (case x of None \<Rightarrow> None | Some (r, w) \<Rightarrow> rotate_logs pattern maxfiles w)"

subsection \<open>Opening the log\<close>

text \<open>
  \<^verbatim>\<open>strstr(s, needle)\<close>: the offset of the first occurrence of \<open>needle\<close> in \<open>s\<close>, \<open>None\<close>
  for the null pointer.
\<close>

fun strstr :: "string \<Rightarrow> string \<Rightarrow> nat option" where
  "strstr [] needle = (if needle = [] then Some 0 else None)"
| "strstr (c # cs) needle =
     (if take (length needle) (c # cs) = needle then Some 0
      else map_option Suc (strstr cs needle))"

text \<open>
  \<^verbatim>\<open>#define warning(format, ...)  log_warning(__FILE__, __LINE__, format, ##__VA_ARGS__)\<close>
  \<^verbatim>\<open>__FILE__\<close> is the path the compiler was given for \<^verbatim>\<open>logging.c\<close>; the emitter prints
  its last component only.
\<close>

definition this_file :: string where
  "this_file = ''src/main/c/logging.c''"

definition warning :: "int \<Rightarrow> string \<Rightarrow> world \<Rightarrow> outcome \<times> world" where
  "warning line msg w = log_warning this_file line msg w"

text \<open>
  \<^verbatim>\<open>int log_open(const char* filename, int maxfiles) {
    if (maxfiles > 1) {
      char* pattern = CALLOC(1, strlen(filename)+8);
      if (pattern == NULL) return warning("Out of memory");
      char* p = strstr(filename, "-0.");
      if (p != NULL) {
        memcpy(pattern, filename, p-filename);
        strcat(pattern, "-%d.");
        strcat(pattern, p+3);
        rotate_logs(pattern, maxfiles);
      }
      FREE(pattern);
    }
    if (freopen(filename, "a", stderr) == NULL) return warning("Cannot open log file");
    return 0;
  }\<close>
  \<open>reopen\<close> is the last two lines. The buffer of the pattern comes zeroed from
  \<^verbatim>\<open>calloc\<close>, so that after \<^verbatim>\<open>memcpy\<close> and the two \<^verbatim>\<open>strcat\<close> it holds the file name
  with \<^verbatim>\<open>-%d.\<close> in the place of the first \<^verbatim>\<open>-0.\<close>: \<open>pattern_of filename k\<close>, for the
  offset \<open>k\<close> that \<^verbatim>\<open>strstr\<close> returned.
\<close>

definition pattern_of :: "string \<Rightarrow> nat \<Rightarrow> string" where
  "pattern_of filename k = take k filename @ ''-%d.'' @ drop (k + 3) filename"

definition reopen :: "string \<Rightarrow> world \<Rightarrow> outcome \<times> world" where
  "reopen filename w =
     (case freopen filename w of
        (False, w') \<Rightarrow> warning 54 ''Cannot open log file'' w'
      | (True, w') \<Rightarrow> (Val 0, w'))"

definition log_open :: "string \<Rightarrow> int \<Rightarrow> world \<Rightarrow> (outcome \<times> world) option" where
  "log_open filename maxfiles w =
     (if maxfiles > 1 then
        (case malloc (length filename + 8) w of
           None \<Rightarrow> Some (warning 44 ''Out of memory'' w)
         | Some w1 \<Rightarrow>
             (case strstr filename ''-0.'' of
                Some k \<Rightarrow>
                  (case rotate_logs (pattern_of filename k) maxfiles w1 of
                     None \<Rightarrow> None
                   | Some (r, w2) \<Rightarrow> Some (reopen filename (free (length filename + 8) w2)))
              | None \<Rightarrow> Some (reopen filename (free (length filename + 8) w1))))
      else Some (reopen filename w))"

text \<open>A world in which one path cannot be opened.\<close>

definition no_dir :: world where
  "no_dir = boot\<lparr>openable := (\<lambda>p. p \<noteq> ''/nodir/app.log'')\<rparr>"

subsection \<open>Closing the log\<close>

text \<open>
  \<^verbatim>\<open>int log_close(void) {
    fclose(stderr);
    return 0;
  }\<close>
\<close>

definition log_close :: "world \<Rightarrow> outcome \<times> world" where
  "log_close w = (let (r, w') = fclose w in (Val 0, w'))"

subsection \<open>The level\<close>

text \<open>
  \<^verbatim>\<open>int log_level(int lvl) {
    if (lvl >= LOG_NONE && lvl <= LOG_ALL) level = lvl;
    return level;
  }\<close>
\<close>

definition log_level :: "int \<Rightarrow> world \<Rightarrow> outcome \<times> world" where
  "log_level lvl w =
     (let w' = (if lvl \<ge> LOG_NONE \<and> lvl \<le> LOG_ALL then w\<lparr>level := lvl\<rparr> else w)
      in (Val (level w'), w'))"

subsection \<open>Bytes in hexadecimal\<close>

text \<open>
  A buffer is a list of bytes; the C string in it ends before the first \<open>NUL\<close>.
  \<^verbatim>\<open>sprintf(p, "%02x", b)\<close> for a byte \<open>b\<close> writes its two hexadecimal digits, in lower
  case, and a terminator.
\<close>

definition NUL :: char where
  "NUL = CHR 0x00"

definition cstring :: "char list \<Rightarrow> string" where
  "cstring buf = takeWhile (\<lambda>c. c \<noteq> NUL) buf"

definition fmt_02x :: "8 word \<Rightarrow> string" where
  "fmt_02x b = [digit (unat b div 16), digit (unat b mod 16)]"

text \<open>
  The value of an \<^verbatim>\<open>int\<close> expression whose mathematical value is \<open>x\<close>: \<^verbatim>\<open>int\<close> has 32
  bits, and a result outside them wraps around. (ISO C leaves signed overflow
  undefined; the compilers in use wrap.)
\<close>

definition int32 :: "int \<Rightarrow> int" where
  "int32 x = (x + 2 ^ 31) mod 2 ^ 32 - 2 ^ 31"

text \<open>
  \<^verbatim>\<open>char* bits2str(const uint8_t* data, int len, char* str) {
    if (str == NULL) {
      str = CALLOC(1, 2*len+1);
      if (str == NULL) return NULL;
    }
    for (int i = 0; i < len; i++)
      sprintf(str+2*i, "%02x", data[i]);
    return str;
  }\<close>
  The loop, from \<open>i\<close> upwards: three bytes are written at offset \<^verbatim>\<open>2*i\<close>, an \<^verbatim>\<open>int\<close>,
  which is negative once \<open>2 * i\<close> has left the 32 bits. Reading past the end of \<open>data\<close>
  and writing before the start or past the end of the buffer are undefined: \<open>None\<close>.
  The index \<open>i\<close> stays between \<open>0\<close> and \<open>len\<close>, so \<^verbatim>\<open>i++\<close> does not overflow.

  In \<open>bits2str\<close> the length is a 32-bit word read as signed, and the argument \<open>str\<close> is
  \<open>None\<close> for the null pointer and else the caller's buffer; the result is the null
  pointer or the buffer, as it is after the loop. The size \<^verbatim>\<open>2*len+1\<close> is an \<^verbatim>\<open>int\<close> too:
  from \<open>len = 2^30\<close> on it has wrapped to a negative number, which as a \<^verbatim>\<open>size_t\<close> is
  more than any allocation can give, and \<^verbatim>\<open>calloc\<close> returns the null pointer.
\<close>

function bits2str_loop :: "8 word list \<Rightarrow> int \<Rightarrow> int \<Rightarrow> char list \<Rightarrow> char list option" where
  "bits2str_loop data len i str =
     (if i < len then
        (if 0 \<le> i \<and> nat i < length data \<and> 0 \<le> int32 (2 * i)
            \<and> nat (int32 (2 * i)) + 2 < length str
         then bits2str_loop data len (i + 1)
                (str[nat (int32 (2 * i)) := fmt_02x (data ! nat i) ! 0,
                     nat (int32 (2 * i)) + 1 := fmt_02x (data ! nat i) ! 1,
                     nat (int32 (2 * i)) + 2 := NUL])
         else None)
      else Some str)"
  by pat_completeness auto
termination
  by (relation "measure (\<lambda>(data, len, i, str). nat (len - i))") auto

declare bits2str_loop.simps [simp del]

definition bits2str ::
  "8 word list \<Rightarrow> 32 word \<Rightarrow> char list option \<Rightarrow> world \<Rightarrow>
     (char list option \<times> world) option" where
  "bits2str data len str w =
     (case str of
        None \<Rightarrow>
          (if int32 (2 * sint len + 1) < 0 then Some (None, w)
           else (case malloc (nat (int32 (2 * sint len + 1))) w of
                   None \<Rightarrow> Some (None, w)
                 | Some w1 \<Rightarrow>
                     map_option (\<lambda>b. (Some b, w1))
                       (bits2str_loop data (sint len) 0
                          (replicate (nat (int32 (2 * sint len + 1))) NUL))))
      | Some buf \<Rightarrow> map_option (\<lambda>b. (Some b, w)) (bits2str_loop data (sint len) 0 buf))"

text \<open>A world with memory to spare.\<close>

definition roomy :: world where
  "roomy = boot\<lparr>heap_free := 2 ^ 40\<rparr>"

text \<open>
  The encoding the specification describes: for each byte in order its two hexadecimal
  digits, nothing between them.
\<close>

definition hex_of :: "8 word list \<Rightarrow> string" where
  "hex_of data = concat (map fmt_02x data)"

section \<open>Properties\<close>

lemmas LOG_defs = LOG_NONE_def LOG_ERRORS_def LOG_WARNINGS_def LOG_INFO_def
  LOG_DEBUG_def LOG_ALL_def

lemmas text_eval = line_of_def header_def current_time_ms_def smodule_of_def fmt_d_def
  dec.simps digit_def

lemmas rotate_eval = rotate_logs_def rotate_loop.simps sprintf_def malloc_def free_def
  rename_def mv_def called_def fmt_d_def dec.simps digit_def Let_def


subsection \<open>Setting the level\<close>

text \<open>
  C5. For every integer \<open>lvl\<close>, \<open>log_level lvl\<close> stores \<open>lvl\<close> in the global threshold when
  \<open>LOG_NONE \<le> lvl \<le> LOG_ALL\<close>, leaves the world as it was when \<open>lvl\<close> is outside that
  range, and in both cases returns the threshold that is current after the call.
\<close>

theorem log_level_sets_in_range:
  "(LOG_NONE \<le> lvl \<and> lvl \<le> LOG_ALL \<longrightarrow>
      log_level lvl w = (Val lvl, w\<lparr>level := lvl\<rparr>))
   \<and> (lvl < LOG_NONE \<or> LOG_ALL < lvl \<longrightarrow> log_level lvl w = (Val (level w), w))
   \<and> fst (log_level lvl w) = Val (level (snd (log_level lvl w)))"
  by (auto simp: log_level_def Let_def)

theorem log_level_sets_in_range_witness:
  "log_level 4 boot = (Val 4, boot\<lparr>level := 4\<rparr>) \<and> log_level 9 boot = (Val 3, boot)
   \<and> log_level (- 1) boot = (Val 3, boot) \<and> level boot = 3"
  using log_level_sets_in_range [of 4 boot] log_level_sets_in_range [of 9 boot]
    log_level_sets_in_range [of "- 1" boot]
  by (simp add: LOG_defs boot_def)

subsection \<open>File names and the rotation loop\<close>

lemma dec_length: "n < 10 ^ k \<Longrightarrow> 0 < k \<Longrightarrow> length (dec n) \<le> k"
proof (induction n arbitrary: k rule: dec.induct)
  case (1 n)
  show ?case
  proof (cases "n < 10")
    case True
    with 1 show ?thesis by (simp add: dec.simps)
  next
    case False
    obtain k' where k: "k = Suc k'" using 1(3) by (cases k) auto
    have "k' \<noteq> 0" using False 1(2) k by (cases k') auto
    moreover have "n div 10 < 10 ^ k'" using 1(2) k by (simp add: less_mult_imp_div_less mult.commute)
    ultimately have "length (dec (n div 10)) \<le> k'" using 1(1) [OF False, of k'] by simp
    then show ?thesis using False k by (subst dec.simps) simp
  qed
qed

lemma fmt_d_length: "0 \<le> i \<Longrightarrow> i \<le> 999999999 \<Longrightarrow> length (fmt_d i) \<le> 9"
  using dec_length [of "nat i" 9] by (simp add: fmt_d_def)

lemma vsprintf_plain: "CHR ''%'' \<notin> set s \<Longrightarrow> vsprintf s a = Some s"
  by (induction s) auto

lemma sprintf_slot:
  "CHR ''%'' \<notin> set pre \<Longrightarrow> CHR ''%'' \<notin> set post \<Longrightarrow>
   sprintf (pre @ ''%d'' @ post) i = Some (pre @ fmt_d i @ post)"
  by (induction pre) (auto simp: sprintf_def vsprintf_plain)

lemma snd_rename:
  "snd (rename a b w) =
     w\<lparr>trace := trace w @ [Rename a b], files := mv (refused w) a b (files w)\<rparr>"
  by (simp add: rename_def called_def)

lemma rev_upto: "0 \<le> i \<Longrightarrow> rev [0..i] = i # rev [0..i - 1]"
  by (simp add: upto_rec2)

lemma rotate_loop_result:
  "rotate_loop pattern maxlen i w = Some w' \<Longrightarrow>
   w' = w\<lparr>trace := trace w @ map (\<lambda>j. Rename (name_at pattern j) (name_at pattern (j + 1))) (rev [0..i]),
          files := shifted (refused w) pattern (rev [0..i]) (files w)\<rparr>"
proof (induction pattern maxlen i w rule: rotate_loop.induct)
  case (1 pattern maxlen i w)
  show ?case
  proof (cases "i \<ge> 0")
    case False
    with 1(2) show ?thesis by (simp add: rotate_loop.simps shifted_def)
  next
    case True
    from 1(2) True obtain f1 f2 where f: "sprintf pattern i = Some f1" "sprintf pattern (i + 1) = Some f2"
      "length f1 < maxlen \<and> length f2 < maxlen"
      and r: "rotate_loop pattern maxlen (i - 1) (snd (rename f1 f2 w)) = Some w'"
      by (subst (asm) rotate_loop.simps) (auto split: option.splits if_splits)
    have n: "name_at pattern i = f1" "name_at pattern (i + 1) = f2" using f by (simp_all add: name_at_def)
    from 1(1) [OF True f(1) f(2) f(3) r] show ?thesis
      using True by (simp add: snd_rename rev_upto n shifted_def)
  qed
qed

lemma rotate_loop_defined:
  "(\<And>j. 0 \<le> j \<Longrightarrow> j \<le> i + 1 \<Longrightarrow> \<exists>f. sprintf pattern j = Some f \<and> length f < maxlen) \<Longrightarrow>
   \<exists>w'. rotate_loop pattern maxlen i w = Some w'"
proof (induction pattern maxlen i w rule: rotate_loop.induct)
  case (1 pattern maxlen i w)
  show ?case
  proof (cases "i \<ge> 0")
    case False
    then show ?thesis by (simp add: rotate_loop.simps)
  next
    case True
    from 1(2) [of i] True obtain f1 where f1: "sprintf pattern i = Some f1" "length f1 < maxlen" by auto
    from 1(2) [of "i + 1"] True obtain f2 where f2: "sprintf pattern (i + 1) = Some f2" "length f2 < maxlen" by auto
    have "\<exists>w'. rotate_loop pattern maxlen (i - 1) (snd (rename f1 f2 w)) = Some w'"
      using 1(1) [OF True f1(1) f2(1)] f1 f2 1(2) by simp
    then show ?thesis using True f1 f2 by (subst rotate_loop.simps) simp
  qed
qed


lemma rotate_logs_result:
  assumes "rotate_logs pattern maxfiles w = Some (r, w')"
    and "2 * (length pattern + 8) \<le> heap_free w"
  shows "r = Val 0 \<and>
     w' = w\<lparr>trace := trace w @ map (\<lambda>j. Rename (name_at pattern j) (name_at pattern (j + 1)))
                                 (rev [0..maxfiles - 1]),
            files := shifted (refused w) pattern (rev [0..maxfiles - 1]) (files w)\<rparr>"
proof -
  let ?w1 = "w\<lparr>heap_free := heap_free w - 2 * (length pattern + 8)\<rparr>"
  from assms obtain w2 where l: "rotate_loop pattern (length pattern + 8) (maxfiles - 1) ?w1 = Some w2"
    and r: "r = Val 0" and w': "w' = free (2 * (length pattern + 8)) w2"
    by (auto simp: rotate_logs_def malloc_def Let_def split: option.splits)
  show ?thesis
    using rotate_loop_result [OF l] r w' assms(2) by (simp add: free_def)
qed

lemma rotate_logs_no_memory:
  "\<not> 2 * (length pattern + 8) \<le> heap_free w \<Longrightarrow>
   rotate_logs pattern maxfiles w = Some (Val (- 1), w)"
  by (simp add: rotate_logs_def malloc_def Let_def)

lemma rotate_logs_defined:
  assumes "\<And>j. 0 \<le> j \<Longrightarrow> j \<le> maxfiles \<Longrightarrow>
             \<exists>f. sprintf pattern j = Some f \<and> length f < length pattern + 8"
  shows "\<exists>r w'. rotate_logs pattern maxfiles w = Some (r, w')"
proof (cases "2 * (length pattern + 8) \<le> heap_free w")
  case False
  then show ?thesis by (simp add: rotate_logs_no_memory)
next
  case True
  let ?w1 = "w\<lparr>heap_free := heap_free w - 2 * (length pattern + 8)\<rparr>"
  have "\<exists>w2. rotate_loop pattern (length pattern + 8) (maxfiles - 1) ?w1 = Some w2"
    by (rule rotate_loop_defined) (use assms in simp)
  then show ?thesis using True by (auto simp: rotate_logs_def malloc_def Let_def)
qed

lemma slot_names_fit:
  assumes "CHR ''%'' \<notin> set pre" "CHR ''%'' \<notin> set post" "maxfiles \<le> 999999999"
    and "0 \<le> j" "j \<le> maxfiles"
  shows "\<exists>f. sprintf (pre @ ''%d'' @ post) j = Some f \<and> length f < length (pre @ ''%d'' @ post) + 8"
  using assms fmt_d_length [of j] sprintf_slot [of pre post j] by simp

lemma name_at_slot:
  "CHR ''%'' \<notin> set pre \<Longrightarrow> CHR ''%'' \<notin> set post \<Longrightarrow>
   name_at (pre @ ''%d'' @ post) i = pre @ fmt_d i @ post"
  using sprintf_slot [of pre post i] by (simp add: name_at_def)




lemma mv_other: "x \<noteq> old \<Longrightarrow> x \<noteq> new \<Longrightarrow> mv deny old new fs x = fs x"
  by (simp add: mv_def split: option.split)

lemma mv_target: "fs old = Some c \<Longrightarrow> \<not> deny old new \<Longrightarrow> mv deny old new fs new = Some c"
  by (auto simp: mv_def)



lemma shifted_other:
  "(\<And>j. j \<in> set js \<Longrightarrow> x \<noteq> name_at pattern j \<and> x \<noteq> name_at pattern (j + 1)) \<Longrightarrow>
   shifted deny pattern js fs x = fs x"
  unfolding shifted_def
proof (induction js arbitrary: fs)
  case Nil
  then show ?case by simp
next
  case (Cons j js)
  have "foldl (\<lambda>fs j. mv deny (name_at pattern j) (name_at pattern (j + 1)) fs)
          (mv deny (name_at pattern j) (name_at pattern (j + 1)) fs) js x =
        mv deny (name_at pattern j) (name_at pattern (j + 1)) fs x"
    by (rule Cons.IH) (use Cons.prems in simp)
  also have "\<dots> = fs x" using Cons.prems [of j] by (simp add: mv_other)
  finally show ?case by simp
qed





lemma digit_inj: "a < 10 \<Longrightarrow> b < 10 \<Longrightarrow> digit a = digit b \<Longrightarrow> a = b"
proof -
  assume a: "a < 10" and b: "b < 10" and e: "digit a = digit b"
  have d: "distinct ''0123456789abcdef''" by simp
  have "a < length ''0123456789abcdef''" "b < length ''0123456789abcdef''" using a b by simp_all
  with d e show "a = b" unfolding digit_def by (simp only: nth_eq_iff_index_eq)
qed

lemma dec_nonempty: "dec n \<noteq> []"
  by (subst dec.simps) simp

lemma dec_inj: "dec n = dec m \<Longrightarrow> n = m"
proof (induction n arbitrary: m rule: dec.induct)
  case (1 n)
  show ?case
  proof (cases "n < 10")
    case True
    show ?thesis
    proof (cases "m < 10")
      case m: True
      from 1(2) True m have "digit n = digit m" by (simp add: dec.simps)
      then show ?thesis using True m by (rule digit_inj [rotated 2])
    next
      case False
      then have "dec m = dec (m div 10) @ [digit (m mod 10)]" by (subst dec.simps) simp
      moreover have "dec n = [digit n]" using True by (subst dec.simps) simp
      ultimately show ?thesis using 1(2) dec_nonempty [of "m div 10"] by simp
    qed
  next
    case False
    then have n: "dec n = dec (n div 10) @ [digit (n mod 10)]" by (subst dec.simps) simp
    show ?thesis
    proof (cases "m < 10")
      case True
      then have "dec m = [digit m]" by (subst dec.simps) simp
      then show ?thesis using n 1(2) dec_nonempty [of "n div 10"] by simp
    next
      case m: False
      then have "dec m = dec (m div 10) @ [digit (m mod 10)]" by (subst dec.simps) simp
      with n 1(2) have e: "dec (n div 10) = dec (m div 10)" "digit (n mod 10) = digit (m mod 10)"
        by simp_all
      have "n div 10 = m div 10" using 1(1) [OF False e(1)] .
      moreover have "n mod 10 = m mod 10" using e(2) by (intro digit_inj) simp_all
      ultimately show ?thesis by (metis div_mult_mod_eq)
    qed
  qed
qed

lemma fmt_d_inj: "0 \<le> i \<Longrightarrow> 0 \<le> j \<Longrightarrow> fmt_d i = fmt_d j \<Longrightarrow> i = j"
  using dec_inj [of "nat i" "nat j"] by (simp add: fmt_d_def)

lemma shifted_up:
  assumes inj: "\<And>a b. 0 \<le> a \<Longrightarrow> 0 \<le> b \<Longrightarrow> name_at pattern a = name_at pattern b \<Longrightarrow> a = b"
    and "0 \<le> k" "k \<le> n" "fs (name_at pattern k) = Some c"
    and "\<not> deny (name_at pattern k) (name_at pattern (k + 1))"
  shows "shifted deny pattern (rev [0..n]) fs (name_at pattern (k + 1)) = Some c"
  using assms(2-)
proof (induction "nat n" arbitrary: n fs)
  case 0
  then have "n = 0" "k = 0" by simp_all
  then show ?case using "0.prems"(3,4) by (simp add: shifted_def mv_target)
next
  case (Suc m)
  let ?fs1 = "mv deny (name_at pattern n) (name_at pattern (n + 1)) fs"
  have n: "0 \<le> n" using Suc.prems by simp
  have unf: "shifted deny pattern (rev [0..n]) fs = shifted deny pattern (rev [0..n - 1]) ?fs1"
    using n by (simp add: shifted_def rev_upto)
  show ?case
  proof (cases "k = n")
    case True
    have "shifted deny pattern (rev [0..n - 1]) ?fs1 (name_at pattern (n + 1)) =
        ?fs1 (name_at pattern (n + 1))"
    proof (rule shifted_other)
      fix j assume "j \<in> set (rev [0..n - 1])"
      then have j: "0 \<le> j" "j \<le> n - 1" by simp_all
      show "name_at pattern (n + 1) \<noteq> name_at pattern j \<and>
            name_at pattern (n + 1) \<noteq> name_at pattern (j + 1)"
        using inj [of "n + 1" j] inj [of "n + 1" "j + 1"] j n by auto
    qed
    also have "\<dots> = Some c" using Suc.prems(3,4) True by (simp add: mv_target)
    finally show ?thesis using unf True by simp
  next
    case False
    then have kn: "k \<le> n - 1" using Suc.prems(2) by simp
    have "?fs1 (name_at pattern k) = fs (name_at pattern k)"
      using inj [of k n] inj [of k "n + 1"] Suc.prems(1) n False kn by (intro mv_other) auto
    then have f1: "?fs1 (name_at pattern k) = Some c" using Suc.prems(3) by simp
    have m: "m = nat (n - 1)" using Suc.hyps(2) by simp
    have "shifted deny pattern (rev [0..n - 1]) ?fs1 (name_at pattern (k + 1)) = Some c"
      using m Suc.prems(1) kn f1 Suc.prems(4) by (rule Suc.hyps(1))
    then show ?thesis using unf by simp
  qed
qed

lemma slot_names_inj:
  assumes "CHR ''%'' \<notin> set pre" and "CHR ''%'' \<notin> set post"
    and "0 \<le> a" and "0 \<le> b"
    and "name_at (pre @ ''%d'' @ post) a = name_at (pre @ ''%d'' @ post) b"
  shows "a = b"
  using assms(5) fmt_d_inj [OF assms(3,4)] unfolding name_at_slot [OF assms(1,2)] by simp

lemma rotate_logs_shifts:
  assumes "CHR ''%'' \<notin> set pre" and "CHR ''%'' \<notin> set post"
    and "maxfiles \<le> 999999999"
    and "2 * (length (pre @ ''%d'' @ post) + 8) \<le> heap_free w"
    and "0 \<le> k" and "k \<le> maxfiles - 1" and "files w (pre @ fmt_d k @ post) = Some c"
    and "\<not> refused w (pre @ fmt_d k @ post) (pre @ fmt_d (k + 1) @ post)"
  shows "\<exists>w'. rotate_logs (pre @ ''%d'' @ post) maxfiles w = Some (Val 0, w')
     \<and> files w' (pre @ fmt_d (k + 1) @ post) = Some c"
proof -
  let ?p = "pre @ ''%d'' @ post"
  obtain r w' where rw: "rotate_logs ?p maxfiles w = Some (r, w')"
    using rotate_logs_defined [of maxfiles ?p w] slot_names_fit [OF assms(1-3)] by blast
  note res = rotate_logs_result [OF rw assms(4)]
  have n: "\<And>i. name_at ?p i = pre @ fmt_d i @ post"
    by (rule name_at_slot [OF assms(1,2)])
  have "shifted (refused w) ?p (rev [0..maxfiles - 1]) (files w) (name_at ?p (k + 1)) = Some c"
  proof (rule shifted_up [OF _ assms(5,6)])
    show "files w (name_at ?p k) = Some c" using assms(7) n by simp
    show "\<not> refused w (name_at ?p k) (name_at ?p (k + 1))" using assms(8) n by simp
    show "a = b" if "0 \<le> a" "0 \<le> b" "name_at ?p a = name_at ?p b" for a b
      using that by (rule slot_names_inj [OF assms(1,2)])
  qed
  moreover have "files w' = shifted (refused w) ?p (rev [0..maxfiles - 1]) (files w)"
    using res by simp
  ultimately show ?thesis using rw res n by simp
qed

subsection \<open>The order of the renames\<close>




subsection \<open>What one emission does\<close>

lemma new_calls_self [simp]: "new_calls w w = []"
  by (simp add: new_calls_def)

lemma trace_emit:
  "trace (emit tag m l msg w) =
     trace w @ [Lock, Write (header tag m l w), Write msg, Write [CHR 0x0A], Flush, Unlock]"
  by (simp add: emit_def pthread_mutex_unlock_def pthread_mutex_lock_def fflush_def
      fprintf_def called_def Let_def split: option.split sink.split)

lemma new_calls_emit:
  "new_calls w (emit tag m l msg w) =
     [Lock, Write (header tag m l w), Write msg, Write [CHR 0x0A], Flush, Unlock]"
  by (simp add: new_calls_def trace_emit)

lemma writes_emit:
  "writes_of (new_calls w (emit tag m l msg w)) = [header tag m l w, msg, [CHR 0x0A]]"
  by (simp add: new_calls_emit)

lemma level_emit [simp]: "level (emit tag m l msg w) = level w"
  by (simp add: emit_def pthread_mutex_unlock_def pthread_mutex_lock_def fflush_def
      fprintf_def called_def Let_def split: option.split sink.split)

lemma sink_text_called [simp]: "sink_text (called c w) = sink_text w"
  by (simp add: sink_text_def called_def content_def split: option.split sink.split)

lemma stderr_sink_called [simp]: "stderr_sink (called c w) = stderr_sink w"
  by (simp add: called_def)

lemma io_error_called [simp]: "io_error (called c w) = io_error w"
  by (simp add: called_def)

lemma fprintf_open:
  assumes "stderr_sink w \<noteq> None" and "\<not> io_error w"
  shows "sink_text (fprintf s w) = sink_text w @ s"
    and "stderr_sink (fprintf s w) = stderr_sink w"
    and "io_error (fprintf s w) = io_error w"
  using assms
  by (auto simp: fprintf_def sink_text_def called_def content_def Let_def
      split: option.split sink.split)

lemma fprintf_lost:
  assumes "stderr_sink w = None \<or> io_error w"
  shows "files (fprintf s w) = files w" and "console (fprintf s w) = console w"
  using assms by (auto simp: fprintf_def called_def Let_def)

lemma sink_text_emit:
  assumes "stderr_sink w \<noteq> None" and "\<not> io_error w"
  shows "sink_text (emit tag m l msg w) = sink_text w @ line_of tag m l msg w"
proof -
  let ?w0 = "pthread_mutex_lock w"
  let ?w1 = "fprintf (header tag m l w) ?w0"
  let ?w2 = "fprintf msg ?w1"
  have 0: "stderr_sink ?w0 \<noteq> None" "\<not> io_error ?w0" "sink_text ?w0 = sink_text w"
    using assms by (simp_all add: pthread_mutex_lock_def)
  have 1: "stderr_sink ?w1 \<noteq> None" "\<not> io_error ?w1"
    "sink_text ?w1 = sink_text w @ header tag m l w"
    using fprintf_open [OF 0(1,2)] 0 by simp_all
  have 2: "stderr_sink ?w2 \<noteq> None" "\<not> io_error ?w2"
    "sink_text ?w2 = sink_text w @ header tag m l w @ msg"
    using fprintf_open [OF 1(1,2)] 1 by simp_all
  have "sink_text (fprintf [CHR 0x0A] ?w2) = sink_text w @ header tag m l w @ msg @ [CHR 0x0A]"
    using fprintf_open(1) [OF 2(1,2)] 2(3) by simp
  then show ?thesis
    by (simp add: emit_def pthread_mutex_unlock_def fflush_def line_of_def)
qed

lemma line_of_nonempty: "line_of tag m l msg w \<noteq> []"
  by (simp add: line_of_def)

subsection \<open>The level filter\<close>

text \<open>
  C3. For every threshold (the \<open>level\<close> of the world) and each of the emitters for error,
  warning, info and debug, the call writes to the stream if and only if the threshold
  is at least the level the emitter requires (\<open>LOG_ERRORS\<close>, \<open>LOG_WARNINGS\<close>, \<open>LOG_INFO\<close>,
  \<open>LOG_DEBUG\<close>); what it writes is one line; on an open stream and a working device
  the line is appended to the sink; and with the threshold at \<open>LOG_NONE\<close> a call for info
  or debug makes no call on the stream at all and leaves the world as it was.
\<close>

theorem emitters_write_iff_level:
  "(writes_of (new_calls w (snd (log_error m l msg w))) \<noteq> []) = (level w \<ge> LOG_ERRORS)
   \<and> (writes_of (new_calls w (snd (log_warning m l msg w))) \<noteq> []) = (level w \<ge> LOG_WARNINGS)
   \<and> (writes_of (new_calls w (snd (log_info m l msg w))) \<noteq> []) = (level w \<ge> LOG_INFO)
   \<and> (writes_of (new_calls w (snd (log_debug m l msg w))) \<noteq> []) = (level w \<ge> LOG_DEBUG)
   \<and> concat (writes_of (new_calls w (snd (log_error m l msg w)))) =
       (if level w \<ge> LOG_ERRORS then line_of ''ERROR'' m l msg w else [])
   \<and> concat (writes_of (new_calls w (snd (log_warning m l msg w)))) =
       (if level w \<ge> LOG_WARNINGS then line_of ''WARNING'' m l msg w else [])
   \<and> concat (writes_of (new_calls w (snd (log_info m l msg w)))) =
       (if level w \<ge> LOG_INFO then line_of ''INFO'' m l msg w else [])
   \<and> concat (writes_of (new_calls w (snd (log_debug m l msg w)))) =
       (if level w \<ge> LOG_DEBUG then line_of ''DEBUG'' m l msg w else [])
   \<and> (stderr_sink w \<noteq> None \<and> \<not> io_error w \<longrightarrow>
        sink_text (snd (log_error m l msg w)) =
          sink_text w @ (if level w \<ge> LOG_ERRORS then line_of ''ERROR'' m l msg w else [])
      \<and> sink_text (snd (log_warning m l msg w)) =
          sink_text w @ (if level w \<ge> LOG_WARNINGS then line_of ''WARNING'' m l msg w else [])
      \<and> sink_text (snd (log_info m l msg w)) =
          sink_text w @ (if level w \<ge> LOG_INFO then line_of ''INFO'' m l msg w else [])
      \<and> sink_text (snd (log_debug m l msg w)) =
          sink_text w @ (if level w \<ge> LOG_DEBUG then line_of ''DEBUG'' m l msg w else []))
   \<and> (level w = LOG_NONE \<longrightarrow>
        new_calls w (snd (log_info m l msg w)) = [] \<and> snd (log_info m l msg w) = w
      \<and> new_calls w (snd (log_debug m l msg w)) = [] \<and> snd (log_debug m l msg w) = w)"
  by (simp add: log_error_def log_warning_def log_info_def log_debug_def Let_def
      writes_emit line_of_def sink_text_emit LOG_defs)

theorem emitters_write_iff_level_witness:
  "stderr_sink boot \<noteq> None \<and> \<not> io_error boot \<and> level boot = LOG_INFO
   \<and> sink_text (snd (log_error ''src/net/modem.c'' 42 ''no carrier'' boot)) =
       ''1700000000123|ERROR|modem.c:42|no carrier'' @ [CHR 0x0A]
   \<and> sink_text (snd (log_info ''src/net/modem.c'' 42 ''no carrier'' boot)) =
       ''1700000000123|INFO|modem.c:42|no carrier'' @ [CHR 0x0A]
   \<and> sink_text (snd (log_debug ''src/net/modem.c'' 42 ''no carrier'' boot)) = []
   \<and> writes_of (new_calls boot (snd (log_debug ''src/net/modem.c'' 42 ''no carrier'' boot))) = []
   \<and> snd (log_info ''src/net/modem.c'' 42 ''no carrier'' (boot\<lparr>level := LOG_NONE\<rparr>)) =
       boot\<lparr>level := LOG_NONE\<rparr>
   \<and> snd (log_debug ''src/net/modem.c'' 42 ''no carrier'' (boot\<lparr>level := LOG_NONE\<rparr>)) =
       boot\<lparr>level := LOG_NONE\<rparr>"
  using emitters_write_iff_level [of boot "''src/net/modem.c''" 42 "''no carrier''"]
    emitters_write_iff_level [of "boot\<lparr>level := LOG_NONE\<rparr>" "''src/net/modem.c''" 42
      "''no carrier''"]
  by (simp add: text_eval boot_def sink_text_def LOG_defs)

subsection \<open>The fatal emitter\<close>

text \<open>
  C4. Every call of \<open>log_die\<close> ends the process with exit status 1, in every world: at
  every level, with the stream open or closed, with the device working or failing. Its
  line, tagged \<open>ABORT\<close>, is written to the stream if and only if the level is greater
  than \<open>LOG_NONE\<close>.
\<close>

theorem log_die_exits_1:
  "fst (log_die m l msg w) = Exit 1
   \<and> (writes_of (new_calls w (snd (log_die m l msg w))) \<noteq> []) = (level w > LOG_NONE)
   \<and> concat (writes_of (new_calls w (snd (log_die m l msg w)))) =
       (if level w > LOG_NONE then line_of ''ABORT'' m l msg w else [])
   \<and> (stderr_sink w \<noteq> None \<and> \<not> io_error w \<longrightarrow>
        sink_text (snd (log_die m l msg w)) =
          sink_text w @ (if level w > LOG_NONE then line_of ''ABORT'' m l msg w else []))"
  by (simp add: log_die_def Let_def writes_emit line_of_def sink_text_emit)

theorem log_die_exits_1_witness:
  "stderr_sink boot \<noteq> None \<and> \<not> io_error boot
   \<and> fst (log_die ''src/net/modem.c'' 42 ''no carrier'' boot) = Exit 1
   \<and> sink_text (snd (log_die ''src/net/modem.c'' 42 ''no carrier'' boot)) =
       ''1700000000123|ABORT|modem.c:42|no carrier'' @ [CHR 0x0A]
   \<and> fst (log_die ''src/net/modem.c'' 42 ''no carrier'' (boot\<lparr>io_error := True\<rparr>)) = Exit 1
   \<and> fst (log_die ''src/net/modem.c'' 42 ''no carrier'' (boot\<lparr>stderr_sink := None\<rparr>)) = Exit 1
   \<and> fst (log_die ''src/net/modem.c'' 42 ''no carrier'' (boot\<lparr>level := LOG_NONE\<rparr>)) = Exit 1
   \<and> writes_of (new_calls (boot\<lparr>level := LOG_NONE\<rparr>)
        (snd (log_die ''src/net/modem.c'' 42 ''no carrier'' (boot\<lparr>level := LOG_NONE\<rparr>)))) = []"
  using log_die_exits_1 [of "''src/net/modem.c''" 42 "''no carrier''" boot]
    log_die_exits_1 [of "''src/net/modem.c''" 42 "''no carrier''" "boot\<lparr>io_error := True\<rparr>"]
    log_die_exits_1 [of "''src/net/modem.c''" 42 "''no carrier''" "boot\<lparr>stderr_sink := None\<rparr>"]
    log_die_exits_1 [of "''src/net/modem.c''" 42 "''no carrier''" "boot\<lparr>level := LOG_NONE\<rparr>"]
  by (simp add: text_eval boot_def sink_text_def LOG_defs)

subsection \<open>What the emitters return\<close>

text \<open>
  C6, as the code has it. When the level is below the level an emitter requires, each
  of the emitters for error, warning, info and debug returns with no call on the stream
  and the world unchanged. \<open>log_error\<close> and \<open>log_warning\<close> return \<open>-1\<close> in every case,
  written or not, and never end the process; \<open>log_info\<close> and \<open>log_debug\<close> are \<^verbatim>\<open>void\<close>
  and return no value in any case.
\<close>

theorem emitters_return:
  "(level w < LOG_ERRORS \<longrightarrow> snd (log_error m l msg w) = w)
   \<and> (level w < LOG_WARNINGS \<longrightarrow> snd (log_warning m l msg w) = w)
   \<and> (level w < LOG_INFO \<longrightarrow> snd (log_info m l msg w) = w)
   \<and> (level w < LOG_DEBUG \<longrightarrow> snd (log_debug m l msg w) = w)
   \<and> fst (log_error m l msg w) = Val (- 1)
   \<and> fst (log_warning m l msg w) = Val (- 1)
   \<and> fst (log_info m l msg w) = Void
   \<and> fst (log_debug m l msg w) = Void"
  by (simp add: log_error_def log_warning_def log_info_def log_debug_def Let_def)

theorem emitters_return_witness:
  "level (boot\<lparr>level := LOG_NONE\<rparr>) < LOG_ERRORS
   \<and> log_error ''main.c'' 7 ''hello'' (boot\<lparr>level := LOG_NONE\<rparr>) =
        (Val (- 1), boot\<lparr>level := LOG_NONE\<rparr>)
   \<and> log_warning ''main.c'' 7 ''hello'' (boot\<lparr>level := LOG_NONE\<rparr>) =
        (Val (- 1), boot\<lparr>level := LOG_NONE\<rparr>)
   \<and> log_info ''main.c'' 7 ''hello'' (boot\<lparr>level := LOG_NONE\<rparr>) =
        (Void, boot\<lparr>level := LOG_NONE\<rparr>)
   \<and> log_debug ''main.c'' 7 ''hello'' (boot\<lparr>level := LOG_NONE\<rparr>) =
        (Void, boot\<lparr>level := LOG_NONE\<rparr>)
   \<and> fst (log_error ''main.c'' 7 ''hello'' boot) = Val (- 1)
   \<and> fst (log_warning ''main.c'' 7 ''hello'' boot) = Val (- 1)"
  using emitters_return [of "boot\<lparr>level := LOG_NONE\<rparr>" "''main.c''" 7 "''hello''"]
    emitters_return [of boot "''main.c''" 7 "''hello''"]
  by (simp add: LOG_defs prod_eq_iff)

text \<open>
  The specification gives \<open>log_info\<close> and \<open>log_debug\<close> a sentinel value to return as
  well. At level \<open>LOG_NONE\<close> both return without a value.
\<close>

theorem info_debug_return_no_value:
  "fst (log_info ''main.c'' 7 ''hello'' (boot\<lparr>level := LOG_NONE\<rparr>)) = Void
   \<and> fst (log_debug ''main.c'' 7 ''hello'' (boot\<lparr>level := LOG_NONE\<rparr>)) = Void
   \<and> fst (log_info ''main.c'' 7 ''hello'' (boot\<lparr>level := LOG_NONE\<rparr>)) \<noteq> Val (- 1)
   \<and> fst (log_debug ''main.c'' 7 ''hello'' (boot\<lparr>level := LOG_NONE\<rparr>)) \<noteq> Val (- 1)"
  by (simp add: log_info_def log_debug_def Let_def)

subsection \<open>Closing\<close>

text \<open>
  C10. \<open>log_close\<close> returns 0 in every world, whatever \<open>fclose\<close> returned; the world after
  it is the one \<open>fclose\<close> leaves, with the stream closed.
\<close>

theorem log_close_returns_0:
  "fst (log_close w) = Val 0 \<and> snd (log_close w) = snd (fclose w)
   \<and> stderr_sink (snd (log_close w)) = None"
  by (simp add: log_close_def fclose_def split: prod.split)

theorem log_close_returns_0_witness:
  "fst (fclose boot) = 0 \<and> fst (log_close boot) = Val 0
   \<and> fst (fclose (boot\<lparr>io_error := True\<rparr>)) = EOF
   \<and> fst (log_close (boot\<lparr>io_error := True\<rparr>)) = Val 0
   \<and> fst (fclose (snd (log_close boot))) = EOF
   \<and> fst (log_close (snd (log_close boot))) = Val 0"
  using log_close_returns_0 [of boot] log_close_returns_0 [of "boot\<lparr>io_error := True\<rparr>"]
    log_close_returns_0 [of "snd (log_close boot)"]
  by (simp add: fclose_def boot_def called_def)

subsection \<open>Opening: when the rotation runs\<close>















subsection \<open>How many files the rotation keeps\<close>

text \<open>
  By \<open>rotate_logs_shifts\<close> every file of an index from \<open>0\<close> to \<open>maxfiles - 1\<close> whose
  rename is not refused is found one index higher after the call: also the file of
  index \<open>maxfiles - 1\<close>, which ends at index \<open>maxfiles\<close>.
\<close>

text \<open>
  C1. One call of \<open>rotate_logs\<close> with \<open>maxfiles = 4\<close> on the files of index 0 to 3 moves
  each of them up by one index: the file that was at index 3, which is \<open>maxfiles - 1\<close>,
  is not lost but is found at index 4, which is \<open>maxfiles\<close>; so it is after
  \<open>log_open\<close> on \<^verbatim>\<open>log-0.txt\<close> with \<open>maxfiles = 4\<close>, which leaves five files. A single
  file at index 0 reaches index 3 after three calls, and the fourth call moves it to
  index 4, where it stays.
\<close>

theorem rotate_logs_keeps_index_maxfiles:
  "map_option (\<lambda>(r, w'). map (files w')
       [''log-0.txt'', ''log-1.txt'', ''log-2.txt'', ''log-3.txt'', ''log-4.txt''])
     (rotate_logs ''log-%d.txt'' 4 four_logs) =
     Some [None, Some ''A'', Some ''B'', Some ''C'', Some ''D'']
   \<and> map_option (\<lambda>(r, w'). (r, stderr_sink w', map (files w')
       [''log-0.txt'', ''log-1.txt'', ''log-2.txt'', ''log-3.txt'', ''log-4.txt'']))
     (log_open ''log-0.txt'' 4 four_logs) =
     Some (Val 0, Some (File ''log-0.txt''),
       [Some [], Some ''A'', Some ''B'', Some ''C'', Some ''D''])
   \<and> map_option (\<lambda>(r, w'). map (files w')
       [''log-0.txt'', ''log-1.txt'', ''log-2.txt'', ''log-3.txt'', ''log-4.txt''])
     (rotate_again ''log-%d.txt'' 4 (rotate_again ''log-%d.txt'' 4
        (rotate_logs ''log-%d.txt'' 4 one_log))) =
     Some [None, None, None, Some ''A'', None]
   \<and> map_option (\<lambda>(r, w'). map (files w')
       [''log-0.txt'', ''log-1.txt'', ''log-2.txt'', ''log-3.txt'', ''log-4.txt''])
     (rotate_again ''log-%d.txt'' 4 (rotate_again ''log-%d.txt'' 4 (rotate_again ''log-%d.txt'' 4
        (rotate_logs ''log-%d.txt'' 4 one_log)))) =
     Some [None, None, None, None, Some ''A'']"
  by (simp add: log_open_def pattern_of_def reopen_def freopen_def content_def rotate_eval
      rotate_again_def one_log_def four_logs_def boot_def)

subsection \<open>Opening a file that cannot be opened\<close>

text \<open>
  Whenever \<open>log_open\<close> reaches \<open>freopen\<close> and the file cannot be opened, the result is
  \<open>-1\<close> and the stream is closed afterwards.
\<close>

lemma stderr_sink_fprintf [simp]: "stderr_sink (fprintf s w) = stderr_sink w"
  by (simp add: fprintf_def called_def Let_def split: option.split sink.split)

lemma stderr_sink_emit [simp]: "stderr_sink (emit tag m l msg w) = stderr_sink w"
  by (simp add: emit_def pthread_mutex_unlock_def pthread_mutex_lock_def fflush_def)

lemma reopen_fails:
  assumes "\<not> openable w f"
  shows "fst (reopen f w) = Val (- 1)" and "stderr_sink (snd (reopen f w)) = None"
  using assms
  by (simp_all add: reopen_def freopen_def warning_def log_warning_def Let_def called_def)

lemma rotate_logs_openable:
  assumes "rotate_logs pattern maxfiles w = Some (r, w')"
  shows "openable w' = openable w"
proof (cases "2 * (length pattern + 8) \<le> heap_free w")
  case True
  from rotate_logs_result [OF assms True] show ?thesis by simp
next
  case False
  then show ?thesis using assms by (simp add: rotate_logs_no_memory)
qed

lemma log_open_cannot_open:
  assumes "log_open filename maxfiles w = Some (r, w')"
    and "\<not> openable w filename"
    and "maxfiles \<le> 1 \<or> length filename + 8 \<le> heap_free w"
  shows "r = Val (- 1) \<and> stderr_sink w' = None"
proof -
  have "\<exists>w0. (r, w') = reopen filename w0 \<and> openable w0 = openable w"
  proof (cases "maxfiles > 1")
    case False
    then have "(r, w') = reopen filename w" using assms(1) by (simp add: log_open_def)
    then show ?thesis by blast
  next
    case True
    then have mem: "length filename + 8 \<le> heap_free w" using assms(3) by simp
    show ?thesis
    proof (cases "strstr filename ''-0.''")
      case None
      then have "(r, w') = reopen filename (free (length filename + 8)
          (w\<lparr>heap_free := heap_free w - (length filename + 8)\<rparr>))"
        using assms(1) True mem by (simp add: log_open_def malloc_def)
      then show ?thesis by (intro exI conjI) (assumption, simp add: free_def)
    next
      case (Some k)
      with assms(1) True mem obtain r2 w2 where
        rot: "rotate_logs (pattern_of filename k) maxfiles
                (w\<lparr>heap_free := heap_free w - (length filename + 8)\<rparr>) = Some (r2, w2)"
        and rw: "(r, w') = reopen filename (free (length filename + 8) w2)"
        by (auto simp: log_open_def malloc_def split: option.splits)
      have "openable w2 = openable w" using rotate_logs_openable [OF rot] by simp
      then show ?thesis using rw by (intro exI conjI) (assumption, simp add: free_def)
    qed
  qed
  then obtain w0 where e: "(r, w') = reopen filename w0" and o: "\<not> openable w0 filename"
    using assms(2) by auto
  have "r = fst (reopen filename w0)" "w' = snd (reopen filename w0)"
    using e by (metis fst_conv, metis snd_conv)
  then show ?thesis using reopen_fails [OF o] by simp
qed

text \<open>
  C8. With the stream on the console and a path that cannot be opened, \<open>log_open\<close>
  returns \<open>-1\<close>; the stream is closed afterwards, the text of the warning about the
  failure was written to the closed stream and reached nothing, and a later call of
  \<open>log_error\<close> leaves the console as it was.
\<close>

theorem log_open_failure_closes_stream:
  "stderr_sink no_dir = Some Console
   \<and> map_option (\<lambda>(r, w'). (r, stderr_sink w', console w', writes_of (trace w'),
          console (snd (log_error ''main.c'' 7 ''hello'' w'))))
       (log_open ''/nodir/app.log'' 1 no_dir) =
     Some (Val (- 1), None, [],
       [''1700000000123|WARNING|logging.c:54|'', ''Cannot open log file'', [CHR 0x0A]], [])"
  by (simp add: log_open_def reopen_def freopen_def warning_def log_warning_def log_error_def
      emit_def fprintf_def fflush_def pthread_mutex_lock_def pthread_mutex_unlock_def called_def
      this_file_def text_eval no_dir_def boot_def LOG_defs Let_def)

subsection \<open>Bytes in hexadecimal\<close>

lemma int32_id: "- (2 ^ 31) \<le> x \<Longrightarrow> x < 2 ^ 31 \<Longrightarrow> int32 x = x"
  by (simp add: int32_def)

lemma update3:
  "length pre = 2 * n \<Longrightarrow>
   (pre @ x # y # z # rest)[2 * n := a, 2 * n + 1 := b, 2 * n + 2 := c] = pre @ a # b # c # rest"
  by (simp add: list_update_append)

lemma bits2str_loop_writes:
  assumes "0 \<le> i" "i < len" "nat len \<le> length data" "len \<le> 2 ^ 30"
    and "length pre = 2 * nat i" "length tail = 2 * nat (len - i) + 1"
  shows "bits2str_loop data len i (pre @ tail @ rest) =
     Some (pre @ hex_of (drop (nat i) (take (nat len) data)) @ NUL # rest)"
  using assms
proof (induction "nat (len - i)" arbitrary: i pre tail)
  case 0
  then show ?case by simp
next
  case (Suc n)
  obtain x y z tail' where tl: "tail = x # y # z # tail'" "length tail' = 2 * n"
  proof -
    from Suc.prems(6) Suc.hyps(2) have "length tail = 2 * n + 3" by simp
    then obtain x t1 where "tail = x # t1" "length t1 = 2 * n + 2" by (cases tail) auto
    moreover then obtain y t2 where "t1 = y # t2" "length t2 = 2 * n + 1" by (cases t1) auto
    moreover then obtain z t3 where "t2 = z # t3" "length t3 = 2 * n" by (cases t2) auto
    ultimately show ?thesis using that by blast
  qed
  let ?h = "fmt_02x (data ! nat i)"
  let ?str = "pre @ tail @ rest"
  have "int32 (2 * i) = 2 * i" using Suc.prems(1,2,4) by (intro int32_id) simp_all
  then have off: "0 \<le> int32 (2 * i)" "nat (int32 (2 * i)) = 2 * nat i"
    using Suc.prems(1) by simp_all
  have idx: "nat i < length data" using Suc.prems by linarith
  have fit: "2 * nat i + 2 < length ?str" using Suc.prems(5) tl by simp
  have upd: "?str[2 * nat i := ?h ! 0, 2 * nat i + 1 := ?h ! 1, 2 * nat i + 2 := NUL] =
      pre @ ?h ! 0 # ?h ! 1 # NUL # tail' @ rest"
    using update3 [OF Suc.prems(5), of x y z "tail' @ rest"] tl by simp
  have h: "[?h ! 0, ?h ! 1] = ?h" by (simp add: fmt_02x_def)
  have step: "bits2str_loop data len i ?str =
      bits2str_loop data len (i + 1) (pre @ ?h ! 0 # ?h ! 1 # NUL # tail' @ rest)"
    using Suc.prems(1,2) idx fit upd off by (subst bits2str_loop.simps) simp
  have dr: "drop (nat i) (take (nat len) data) =
      data ! nat i # drop (nat (i + 1)) (take (nat len) data)"
  proof -
    have "nat i < length (take (nat len) data)" using Suc.prems by simp
    then have "drop (nat i) (take (nat len) data) =
        take (nat len) data ! nat i # drop (Suc (nat i)) (take (nat len) data)"
      by (rule Cons_nth_drop_Suc [symmetric])
    moreover have "take (nat len) data ! nat i = data ! nat i" using Suc.prems by simp
    moreover have "Suc (nat i) = nat (i + 1)" using Suc.prems(1) by simp
    ultimately show ?thesis by simp
  qed
  show ?case
  proof (cases "i + 1 < len")
    case False
    then have e: "i + 1 = len" using Suc.prems(2) by simp
    then have "n = 0" using Suc.hyps(2) by simp
    then have t0: "tail' = []" using tl(2) by simp
    have "bits2str_loop data len (i + 1) (pre @ ?h ! 0 # ?h ! 1 # NUL # tail' @ rest) =
        Some (pre @ ?h ! 0 # ?h ! 1 # NUL # rest)"
      using e t0 by (subst bits2str_loop.simps) simp
    moreover have "drop (nat (i + 1)) (take (nat len) data) = []" using e by simp
    ultimately show ?thesis using step dr h by (simp add: hex_of_def)
  next
    case True
    have n: "n = nat (len - (i + 1))" using Suc.hyps(2) by simp
    have "bits2str_loop data len (i + 1) ((pre @ [?h ! 0, ?h ! 1]) @ (NUL # tail') @ rest) =
        Some ((pre @ [?h ! 0, ?h ! 1]) @ hex_of (drop (nat (i + 1)) (take (nat len) data)) @ NUL # rest)"
    proof (rule Suc.hyps(1) [OF n _ True Suc.prems(3,4)])
      show "0 \<le> i + 1" using Suc.prems(1) by simp
      show "length (pre @ [?h ! 0, ?h ! 1]) = 2 * nat (i + 1)" using Suc.prems(1,5) by simp
      show "length (NUL # tail') = 2 * nat (len - (i + 1)) + 1" using tl(2) n by simp
    qed
    then show ?thesis using step dr h by (simp add: hex_of_def)
  qed
qed

lemma cstring_stops: "NUL \<notin> set s \<Longrightarrow> cstring (s @ NUL # rest) = s"
  by (induction s) (auto simp: cstring_def)

lemma digit_chars: "d < 16 \<Longrightarrow> digit d \<in> set ''0123456789abcdef''"
  unfolding digit_def by (rule nth_mem) simp

lemma fmt_02x_chars: "set (fmt_02x b) \<subseteq> set ''0123456789abcdef''"
proof -
  have "unat b < 2 ^ LENGTH(8)" by (rule unsigned_less)
  then have "unat b < 256" by simp
  then have "unat b div 16 < 16" by simp
  moreover have "unat b mod 16 < 16" by simp
  ultimately show ?thesis
    unfolding fmt_02x_def using digit_chars by (metis empty_subsetI insert_subset list.simps(15) list.set(1))
qed

lemma hex_of_chars: "set (hex_of data) \<subseteq> set ''0123456789abcdef''"
  unfolding hex_of_def using fmt_02x_chars by (induction data) auto

lemma hex_of_length: "length (hex_of data) = 2 * length data"
  by (induction data) (simp_all add: hex_of_def fmt_02x_def)

lemma hex_of_no_NUL: "NUL \<notin> set (hex_of data)"
  using hex_of_chars [of data] by (auto simp: NUL_def)

lemma bits2str_loop_fresh:
  assumes "0 \<le> len" and "nat len \<le> length data" and "len \<le> 2 ^ 30"
  shows "bits2str_loop data len 0 (replicate (nat (2 * len + 1)) NUL) =
     Some (hex_of (take (nat len) data) @ [NUL])"
proof (cases "len = 0")
  case True
  then show ?thesis by (simp add: bits2str_loop.simps hex_of_def)
next
  case False
  then have pos: "0 < len" using assms(1) by simp
  have "bits2str_loop data len 0 ([] @ replicate (nat (2 * len + 1)) NUL @ []) =
      Some ([] @ hex_of (drop (nat 0) (take (nat len) data)) @ NUL # [])"
  proof (rule bits2str_loop_writes [OF _ pos assms(2,3)])
    show "length (replicate (nat (2 * len + 1)) NUL) = 2 * nat (len - 0) + 1"
      using assms(1) by (simp add: nat_add_distrib nat_mult_distrib)
  qed simp_all
  then show ?thesis by simp
qed

lemma bits2str_loop_given:
  assumes "0 < len" and "nat len \<le> length data" and "len \<le> 2 ^ 30"
    and "nat (2 * len + 1) \<le> length str"
  shows "bits2str_loop data len 0 str =
     Some (hex_of (take (nat len) data) @ NUL # drop (nat (2 * len + 1)) str)"
proof -
  let ?n = "nat (2 * len + 1)"
  have "bits2str_loop data len 0 ([] @ take ?n str @ drop ?n str) =
      Some ([] @ hex_of (drop (nat 0) (take (nat len) data)) @ NUL # drop ?n str)"
  proof (rule bits2str_loop_writes [OF _ assms(1,2,3)])
    show "length (take ?n str) = 2 * nat (len - 0) + 1"
      using assms(1,4) by (simp add: nat_add_distrib nat_mult_distrib)
  qed simp_all
  then show ?thesis by simp
qed

lemma bits2str_nothing_written: "bits2str data 0 (Some str) w = Some (Some str, w)"
  by (simp add: bits2str_def bits2str_loop.simps)

text \<open>
  C9, as the code has it. For a byte array \<open>data\<close> of at least \<open>len\<close> bytes with
  \<open>0 \<le> len < 2^30\<close>, \<open>bits2str\<close> returns a buffer whose string has exactly \<open>2 * len\<close>
  characters: the two lower-case hexadecimal digits of each of the first \<open>len\<close> bytes,
  in order, nothing between them. This holds when \<open>bits2str\<close> allocates the buffer (\<open>str\<close>
  is the null pointer and the allocation succeeds), and when the caller gives a buffer
  of at least \<open>2 * len + 1\<close> bytes and \<open>len\<close> is positive. (For \<open>len = 0\<close> nothing is
  written to a caller's buffer.)
\<close>

theorem bits2str_hex:
  assumes "0 \<le> sint len" and "sint len < 2 ^ 30" and "nat (sint len) \<le> length data"
  shows "(nat (2 * sint len + 1) \<le> heap_free w \<longrightarrow>
      (\<exists>buf w'. bits2str data len None w = Some (Some buf, w')
         \<and> cstring buf = hex_of (take (nat (sint len)) data)
         \<and> length (cstring buf) = 2 * nat (sint len)
         \<and> set (cstring buf) \<subseteq> set ''0123456789abcdef''))
   \<and> (0 < sint len \<and> nat (2 * sint len + 1) \<le> length str \<longrightarrow>
      (\<exists>buf. bits2str data len (Some str) w = Some (Some buf, w)
         \<and> cstring buf = hex_of (take (nat (sint len)) data)
         \<and> length (cstring buf) = 2 * nat (sint len)
         \<and> set (cstring buf) \<subseteq> set ''0123456789abcdef''))"
proof -
  let ?n = "sint len"
  let ?d = "take (nat ?n) data"
  have le: "?n \<le> 2 ^ 30" using assms(2) by simp
  have sz: "int32 (2 * ?n + 1) = 2 * ?n + 1"
    using assms(1,2) by (intro int32_id) simp_all
  have c: "cstring (hex_of ?d @ NUL # rest) = hex_of ?d" for rest
    by (rule cstring_stops [OF hex_of_no_NUL])
  have l: "length (hex_of ?d) = 2 * nat ?n" using assms(3) by (simp add: hex_of_length)
  have 1: "\<exists>buf w'. bits2str data len None w = Some (Some buf, w')
         \<and> cstring buf = hex_of ?d \<and> length (cstring buf) = 2 * nat ?n
         \<and> set (cstring buf) \<subseteq> set ''0123456789abcdef''"
    if "nat (2 * ?n + 1) \<le> heap_free w"
  proof -
    have "bits2str data len None w =
        Some (Some (hex_of ?d @ [NUL]), w\<lparr>heap_free := heap_free w - nat (2 * ?n + 1)\<rparr>)"
      using bits2str_loop_fresh [OF assms(1,3) le] assms(1) that
      by (simp add: bits2str_def malloc_def sz)
    then show ?thesis using c [of "[]"] l hex_of_chars [of ?d] by simp
  qed
  have 2: "\<exists>buf. bits2str data len (Some str) w = Some (Some buf, w)
         \<and> cstring buf = hex_of ?d \<and> length (cstring buf) = 2 * nat ?n
         \<and> set (cstring buf) \<subseteq> set ''0123456789abcdef''"
    if "0 < ?n \<and> nat (2 * ?n + 1) \<le> length str"
  proof -
    have "bits2str data len (Some str) w =
        Some (Some (hex_of ?d @ NUL # drop (nat (2 * ?n + 1)) str), w)"
      using bits2str_loop_given [OF _ assms(3) le, of str] that by (simp add: bits2str_def)
    then show ?thesis using c l hex_of_chars [of ?d] by simp
  qed
  show ?thesis using 1 2 by blast
qed

theorem bits2str_hex_witness:
  "(\<exists>buf w'. bits2str [0x00, 0xFF, 0x1A] 3 None boot = Some (Some buf, w')
     \<and> cstring buf = ''00ff1a'' \<and> length (cstring buf) = 6)
   \<and> (\<exists>buf. bits2str [0x00, 0xFF, 0x1A] 3 (Some ''?????????'') boot = Some (Some buf, boot)
     \<and> cstring buf = ''00ff1a'' \<and> length (cstring buf) = 6)"
  using bits2str_hex [of 3 "[0x00, 0xFF, 0x1A]" boot "''?????????''"]
  by (auto simp: boot_def hex_of_def fmt_02x_def digit_def)

text \<open>
  The specification has the encoding for every length. For an array of \<open>2^30\<close> bytes
  and \<open>len = 2^30\<close>, with memory to spare, the size \<^verbatim>\<open>2*len+1\<close> has wrapped to
  \<open>- 2^31 + 1\<close> and \<open>bits2str\<close> returns the null pointer.
\<close>

theorem bits2str_large_len_returns_null:
  "sint (1073741824 :: 32 word) = 2 ^ 30
   \<and> length (replicate 1073741824 (0 :: 8 word)) = 2 ^ 30
   \<and> int32 (2 * sint (1073741824 :: 32 word) + 1) = - (2 ^ 31) + 1
   \<and> heap_free roomy = 2 ^ 40
   \<and> bits2str (replicate 1073741824 0) 1073741824 None roomy = Some (None, roomy)"
  by (simp add: bits2str_def int32_def roomy_def boot_def)

end
